theory Spec2Isabelle
  imports Complex_Main "HOL-Library.Product_Lexorder"
begin


section \<open>Data model of the disk index search (pq\_flash\_index.cpp)\<close>

text \<open>
  Node ids are the 32-bit unsigned ids of the source; no arithmetic is done on them in the
  functions modelled here, so they are natural numbers. Float distances are modelled as
  reals (finite values, no NaN, no rounding). Counters of the source that are
  \<open>uint32_t\<close> are natural numbers reduced modulo \<open>2 ^ 32\<close> after every increment.
\<close>

datatype Metric = L2 | INNER_PRODUCT | COSINE

datatype error =
    Beamwidth_too_high     \<comment> \<open>ANNException "Beamwidth can not be higher than ..."\<close>
  | No_medoid_for_filter   \<comment> \<open>ANNException "Cannot find medoid for specified filter."\<close>
  | Fetch_failed           \<comment> \<open>ANNException "Failed to fetch embeddings"\<close>
  | No_reorder_data        \<comment> \<open>ANNException "Requested use of reordering data which does not exist"\<close>
  | Out_of_bounds          \<comment> \<open>an index past the end of a vector, or a pop of an empty queue:
                               undefined behaviour of the source\<close>

definition u32 :: "nat \<Rightarrow> nat" where
  "u32 x = x mod 4294967296"

definition u64 :: "nat \<Rightarrow> nat" where
  "u64 x = x mod 18446744073709551616"

definition SECTOR_LEN :: nat where
  "SECTOR_LEN = 4096"

definition FULL_PRECISION_REORDER_MULTIPLIER :: nat where
  "FULL_PRECISION_REORDER_MULTIPLIER = 3"

text \<open>\<open>std::numeric_limits<float>::max()\<close>.\<close>

definition FLT_MAX :: real where
  "FLT_MAX = 340282346638528859811704183484516925440"

text \<open>
  Modelled from the spec: the macro \<open>DIV_ROUND_UP\<close> is declared outside the given
  sources; the spec writes it \<open>ceil(max_node_len / SECTOR_LEN)\<close>.
\<close>

definition DIV_ROUND_UP :: "nat \<Rightarrow> nat \<Rightarrow> nat" where
  "DIV_ROUND_UP x y = x div y + (if x mod y = 0 then 0 else 1)"

subsection \<open>Neighbor and the bounded frontier\<close>

text \<open>
  Modelled from the spec: \<open>Neighbor\<close> and \<open>NeighborPriorityQueue\<close> are declared in a
  header outside the given sources. The spec describes the frontier as a bounded
  best-first container of \<open>Neighbor{id, dist, expanded}\<close> with capacity \<open>l_search\<close>,
  keyed on ascending distance (lower id wins on equal distance), with
  \<open>has_unexpanded()\<close>, a pop of the closest unexpanded entry, and an \<open>insert\<close> that
  drops the worst entry if full.
\<close>

record Neighbor =
  nbr_id :: nat
  distance :: real
  expanded :: bool

definition mk_Neighbor :: "nat \<Rightarrow> real \<Rightarrow> Neighbor" where
  "mk_Neighbor i d = \<lparr>nbr_id = i, distance = d, expanded = False\<rparr>"

definition nbr_key :: "Neighbor \<Rightarrow> real \<times> nat" where
  "nbr_key n = (distance n, nbr_id n)"

record NeighborPriorityQueue =
  pq_capacity :: nat
  pq_data :: "Neighbor list"

definition pq_reserve :: "nat \<Rightarrow> NeighborPriorityQueue \<Rightarrow> NeighborPriorityQueue" where
  "pq_reserve l q = q\<lparr>pq_capacity := l\<rparr>"

definition pq_insert :: "Neighbor \<Rightarrow> NeighborPriorityQueue \<Rightarrow> NeighborPriorityQueue" where
  "pq_insert n q = q\<lparr>pq_data := take (pq_capacity q) (insort_key nbr_key n (pq_data q))\<rparr>"

definition has_unexpanded_node :: "NeighborPriorityQueue \<Rightarrow> bool" where
  "has_unexpanded_node q = list_ex (\<lambda>n. \<not> expanded n) (pq_data q)"

fun mark_first_unexpanded :: "Neighbor list \<Rightarrow> (Neighbor \<times> Neighbor list) option" where
  "mark_first_unexpanded [] = None"
| "mark_first_unexpanded (n # ns) =
     (if expanded n
      then (case mark_first_unexpanded ns of
              None \<Rightarrow> None
            | Some (m, ns') \<Rightarrow> Some (m, n # ns'))
      else Some (n, n\<lparr>expanded := True\<rparr> # ns))"

definition closest_unexpanded ::
  "NeighborPriorityQueue \<Rightarrow> (Neighbor \<times> NeighborPriorityQueue) option" where
  "closest_unexpanded q =
     (case mark_first_unexpanded (pq_data q) of
        None \<Rightarrow> None
      | Some (m, ns) \<Rightarrow> Some (m, q\<lparr>pq_data := ns\<rparr>))"

subsection \<open>Statistics sink\<close>

text \<open>
  Modelled from the spec: \<open>QueryStats\<close> is declared outside the given sources; the spec
  lists the counters recorded in the optional stats sink. The time fields
  (\<open>cpu_us\<close>, \<open>io_us\<close>, \<open>total_us\<close>) are wall-clock measurements and are left out.
\<close>

record QueryStats =
  n_ios :: nat
  n_4k :: nat
  n_hops :: nat
  n_cache_hits :: nat
  n_cmps :: nat

subsection \<open>The loaded index\<close>

text \<open>
  The fields of \<open>PQFlashIndex\<close> that the modelled functions read. The byte layout of
  sectors is not modelled: \<open>disk_nhood\<close> is the adjacency list that decoding the sector(s)
  read for a node yields (inline layout or partition layout), \<open>nhood_cache\<close> is the
  node cache, \<open>read_status\<close> the per-node status returned by \<open>read_nodes\<close>.
  \<open>MAX_N_SECTOR_READS\<close> is a constant of \<open>defaults\<close>, declared outside the given
  sources; it is a parameter here.
\<close>

record PQFlashIndex =
  max_node_len :: nat
  MAX_N_SECTOR_READS :: nat
  num_points :: nat
  metric :: Metric
  max_base_norm :: real
  data_dim :: nat
  medoids :: "nat list"
  filter_to_medoid_ids :: "(nat \<times> nat list) list"
  nhood_cache :: "nat \<Rightarrow> nat list option"
  disk_nhood :: "nat \<Rightarrow> nat list"
  read_status :: "nat \<Rightarrow> bool"
  dummy_pts :: "nat set"
  dummy_to_real_map :: "nat \<Rightarrow> nat option"
  point_has_label :: "nat \<Rightarrow> nat \<Rightarrow> bool"
  use_universal_label :: bool
  universal_filter_label :: nat
  use_partition :: bool
  use_disk_index_pq :: bool
  reorder_data_exists :: bool

text \<open>
  What the distance machinery returns for one query: the PQ tables, the distance kernels
  and the remote embedding service are outside the modelled functions, which only consume
  their results. \<open>fetch_embeddings n ids\<close> is the \<open>n\<close>-th call of
  \<open>fetch_embeddings_http\<close> of this query: its success flag and, for every embedding
  it returned, the distance \<open>_dist_cmp->compare\<close> gives after
  \<open>preprocess_fetched_embeddings\<close>. The flag of \<open>fp_compare\<close> and of the on-disk PQ
  kernels tells whether the coordinates come from the coordinate cache or from the sector
  buffer.
\<close>

record query_env =
  query1 :: "real list"
  centroid_dist :: "nat \<Rightarrow> real"
  pq_dist :: "nat \<Rightarrow> real"
  fp_compare :: "bool \<Rightarrow> nat \<Rightarrow> real"
  disk_pq_inner_product :: "bool \<Rightarrow> nat \<Rightarrow> real"
  disk_pq_l2_distance :: "bool \<Rightarrow> nat \<Rightarrow> real"
  reorder_compare :: "nat \<Rightarrow> real"
  fetch_embeddings :: "nat \<Rightarrow> nat list \<Rightarrow> bool \<times> real list"

record search_params =
  k_search :: nat
  l_search :: nat
  beam_width :: nat
  use_filter :: bool
  filter_label :: nat
  io_limit :: nat
  use_reorder_data :: bool
  USE_DEFERRED_FETCH :: bool
  skip_search_reorder :: bool
  recompute_beighbor_embeddings :: bool
  dedup_node_dis :: bool
  prune_ratio :: real
  batch_recompute :: bool
  global_pruning :: bool

text \<open>
  Per-query state of the distance lambdas: the memo \<open>node_distances\<close>, the shared
  heap \<open>aq_priority_queue\<close> of global pruning (kept as the ascending list of its
  elements), and the number of remote fetches made so far.
\<close>

record dist_state =
  node_distances :: "nat \<Rightarrow> real option"
  aq_priority_queue :: "(real \<times> nat) list"
  n_fetch :: nat

record search_state =
  retset :: NeighborPriorityQueue
  visited :: "nat set"
  full_retset :: "Neighbor list"
  num_ios :: nat
  cmps :: nat
  hops :: nat
  stats :: "QueryStats option"
  dst :: dist_state

text \<open>The caller's output buffers and stats pointer (\<open>distances\<close> and \<open>stats\<close> may be null).\<close>

record caller_bufs =
  indices :: "nat list"
  distances :: "real list option"
  out_stats :: "QueryStats option"


section \<open>The distance lambdas of cached\_beam\_search\<close>

text \<open>
  Second pass of \<open>compute_dists\<close> with deduplication: for every position \<open>i\<close> of
  \<open>ids\<close> not served from the memo, the distance of embedding \<open>idx\<close> is stored in
  \<open>dists_out[i]\<close> and in the memo under the key \<open>node_ids[i]\<close>. The source indexes
  \<open>node_ids\<close> (the ids that were not memoised) with \<open>i\<close>, which can be past its end.
\<close>

fun dedup_fill ::
  "bool list \<Rightarrow> nat list \<Rightarrow> real list \<Rightarrow> nat \<Rightarrow> nat \<Rightarrow> real list \<Rightarrow> (nat \<Rightarrow> real option)
   \<Rightarrow> error + (real list \<times> (nat \<Rightarrow> real option))" where
  "dedup_fill [] node_ids embeddings i idx dists memo = Inr (dists, memo)"
| "dedup_fill (c # cs) node_ids embeddings i idx dists memo =
     (if c then dedup_fill cs node_ids embeddings (Suc i) idx dists memo
      else if length node_ids \<le> i \<or> length embeddings \<le> idx then Inl Out_of_bounds
      else dedup_fill cs node_ids embeddings (Suc i) (Suc idx)
             (dists[i := embeddings ! idx]) (memo(node_ids ! i \<mapsto> embeddings ! idx)))"

definition pq_dists :: "query_env \<Rightarrow> nat list \<Rightarrow> real list" where
  \<comment> \<open>\<open>aggregate_coords\<close> followed by \<open>pq_dist_lookup\<close>\<close>
  "pq_dists q ids = map (pq_dist q) ids"

definition compute_dists ::
  "query_env \<Rightarrow> search_params \<Rightarrow> nat list \<Rightarrow> dist_state \<Rightarrow> error + (real list \<times> dist_state)" where
  "compute_dists q p ids ds =
     (if \<not> recompute_beighbor_embeddings p then Inr (pq_dists q ids, ds)
      else
        let cached_node_idx = map (\<lambda>i. node_distances ds i \<noteq> None) ids;
            dists0 = map (\<lambda>i. case node_distances ds i of Some d \<Rightarrow> d | None \<Rightarrow> 0) ids;
            node_ids = (if dedup_node_dis p then filter (\<lambda>i. node_distances ds i = None) ids
                        else ids)
        in if dedup_node_dis p \<and> node_ids = [] then Inr (dists0, ds)
           else
             let (success, embeddings) = fetch_embeddings q (n_fetch ds) node_ids;
                 ds1 = ds\<lparr>n_fetch := Suc (n_fetch ds)\<rparr>
             in if \<not> success \<or> length embeddings \<noteq> length node_ids
                then Inr (pq_dists q ids, ds1)
                else if dedup_node_dis p
                then (case dedup_fill cached_node_idx node_ids embeddings 0 0 dists0
                             (node_distances ds) of
                        Inl e \<Rightarrow> Inl e
                      | Inr (dists, memo) \<Rightarrow> Inr (dists, ds1\<lparr>node_distances := memo\<rparr>))
                else Inr (embeddings, ds1))"

text \<open>
  \<open>prune_node_nbrs\<close>: \<open>keep\<close> is the value the source stores back into
  \<open>prune_ratio\<close> at the start of the search (\<open>1 - prune_ratio\<close>). The local sort by PQ
  distance is \<open>std::sort\<close> on the distance alone; the stable sort used here is one of its
  admissible results. The capacity of the buffer that receives the pruned list is part
  of the memory layout and is not modelled.
\<close>

definition prune_node_nbrs ::
  "query_env \<Rightarrow> search_params \<Rightarrow> nat set \<Rightarrow> nat list \<Rightarrow> dist_state
   \<Rightarrow> error + (nat list \<times> dist_state)" where
  "prune_node_nbrs q p vis node_nbrs ds =
     (let keep = 1 - prune_ratio p; nnbrs = length node_nbrs in
      if \<not> recompute_beighbor_embeddings p then Inr (node_nbrs, ds)
      else if nnbrs \<le> 10 then Inr (node_nbrs, ds)
      else if global_pruning p then
        (let aq = fold (\<lambda>i acc. insort (pq_dist q i, i) acc) node_nbrs (aq_priority_queue ds);
             original_size = length aq;
             npop = nat \<lceil>keep * real original_size\<rceil>
         in if original_size < npop then Inl Out_of_bounds
            else Inr (map snd (filter (\<lambda>(d, i). i \<notin> vis) (take npop aq)),
                      ds\<lparr>aq_priority_queue := aq\<rparr>))
      else
        (let scored_nbrs = sort_key snd (map (\<lambda>i. (i, pq_dist q i)) node_nbrs);
             new_nnbrs = max 10 (nat \<lfloor>real nnbrs * keep\<rfloor>)
         in if new_nnbrs < nnbrs then Inr (map fst (take new_nnbrs scored_nbrs), ds)
            else Inr (node_nbrs, ds)))"

section \<open>One hop of the traversal\<close>

definition bump_cache_hits :: "QueryStats option \<Rightarrow> QueryStats option" where
  "bump_cache_hits st = map_option (\<lambda>t. t\<lparr>n_cache_hits := u32 (n_cache_hits t + 1)\<rparr>) st"

definition bump_hops :: "QueryStats option \<Rightarrow> QueryStats option" where
  "bump_hops st = map_option (\<lambda>t. t\<lparr>n_hops := u32 (n_hops t + 1)\<rparr>) st"

definition bump_ios :: "QueryStats option \<Rightarrow> QueryStats option" where
  "bump_ios st = map_option (\<lambda>t. t\<lparr>n_4k := u32 (n_4k t + 1), n_ios := u32 (n_ios t + 1)\<rparr>) st"

definition add_cmps :: "nat \<Rightarrow> QueryStats option \<Rightarrow> QueryStats option" where
  "add_cmps n st = map_option (\<lambda>t. t\<lparr>n_cmps := u32 (n_cmps t + u32 n)\<rparr>) st"

text \<open>
  The inner \<open>while\<close> that picks the beam: up to \<open>beam_width\<close> pops of the closest
  unexpanded entry, split into cached neighbourhoods and frontier ids to read. The
  atomic visit counter of cache warm-up is shared between threads and is not modelled.
\<close>

function select_beam ::
  "PQFlashIndex \<Rightarrow> nat \<Rightarrow> NeighborPriorityQueue \<Rightarrow> nat list \<Rightarrow> (nat \<times> nat list) list \<Rightarrow> nat
   \<Rightarrow> QueryStats option
   \<Rightarrow> NeighborPriorityQueue \<times> nat list \<times> (nat \<times> nat list) list \<times> QueryStats option" where
  "select_beam ix bw rs frontier cached_nhoods num_seen st =
     (if has_unexpanded_node rs \<and> length frontier < bw \<and> num_seen < bw then
        (case closest_unexpanded rs of
           None \<Rightarrow> (rs, frontier, cached_nhoods, st)
         | Some (nbr, rs') \<Rightarrow>
             (case nhood_cache ix (nbr_id nbr) of
                Some nh \<Rightarrow>
                  select_beam ix bw rs' frontier (cached_nhoods @ [(nbr_id nbr, nh)])
                    (Suc num_seen) (bump_cache_hits st)
              | None \<Rightarrow>
                  select_beam ix bw rs' (frontier @ [nbr_id nbr]) cached_nhoods
                    (Suc num_seen) st))
      else (rs, frontier, cached_nhoods, st))"
  by pat_completeness auto
termination
  by (relation "measure (\<lambda>(ix, bw, rs, frontier, cached_nhoods, num_seen, st). bw - num_seen)")
     auto

text \<open>Registering the reads of the frontier ids: one sector read request per id.\<close>

definition issue_reads :: "nat list \<Rightarrow> search_state \<Rightarrow> search_state" where
  "issue_reads frontier s =
     (if frontier = [] then s
      else fold (\<lambda>i t. t\<lparr>stats := bump_ios (stats t), num_ios := u32 (num_ios t + 1)\<rparr>)
             frontier (s\<lparr>stats := bump_hops (stats s)\<rparr>))"

text \<open>
  The loop over the neighbours of an expanded node (the three copies in the source differ
  only in whether \<open>stats->n_cmps\<close> is incremented per inserted neighbour).
\<close>

fun process_nbrs ::
  "PQFlashIndex \<Rightarrow> search_params \<Rightarrow> bool \<Rightarrow> (nat \<times> real) list \<Rightarrow> search_state \<Rightarrow> search_state" where
  "process_nbrs ix p cnt [] s = s"
| "process_nbrs ix p cnt ((i, d) # rest) s =
     (if i \<in> visited s then process_nbrs ix p cnt rest s
      else
        let s1 = s\<lparr>visited := insert i (visited s)\<rparr> in
        if \<not> use_filter p \<and> i \<in> dummy_pts ix then process_nbrs ix p cnt rest s1
        else if use_filter p \<and> \<not> point_has_label ix i (filter_label p) \<and>
                (\<not> use_universal_label ix \<or> \<not> point_has_label ix i (universal_filter_label ix))
        then process_nbrs ix p cnt rest s1
        else process_nbrs ix p cnt rest
               (s1\<lparr>cmps := u32 (cmps s1 + 1),
                   stats := (if cnt then add_cmps 1 (stats s1) else stats s1),
                   retset := pq_insert (mk_Neighbor i d) (retset s1)\<rparr>))"

text \<open>Distance of an expanded node that goes into \<open>full_retset\<close>.\<close>

definition exact_dist :: "PQFlashIndex \<Rightarrow> query_env \<Rightarrow> bool \<Rightarrow> nat \<Rightarrow> real" where
  "exact_dist ix q from_cache node_id =
     (if \<not> use_disk_index_pq ix then fp_compare q from_cache node_id
      else if metric ix = INNER_PRODUCT then disk_pq_inner_product q from_cache node_id
      else disk_pq_l2_distance q from_cache node_id)"

definition cached_expanded_dist ::
  "PQFlashIndex \<Rightarrow> query_env \<Rightarrow> search_params \<Rightarrow> nat \<Rightarrow> dist_state \<Rightarrow> error + (real \<times> dist_state)" where
  "cached_expanded_dist ix q p node_id ds =
     (if skip_search_reorder p then
        (case compute_dists q p [node_id] ds of
           Inl e \<Rightarrow> Inl e
         | Inr (dists, ds') \<Rightarrow> (case dists of [] \<Rightarrow> Inl Out_of_bounds | d # _ \<Rightarrow> Inr (d, ds')))
      else if USE_DEFERRED_FETCH p then Inr (0, ds)
      else Inr (exact_dist ix q True node_id, ds))"

definition frontier_expanded_dist ::
  "PQFlashIndex \<Rightarrow> query_env \<Rightarrow> search_params \<Rightarrow> nat \<Rightarrow> dist_state \<Rightarrow> error + (real \<times> dist_state)" where
  "frontier_expanded_dist ix q p node_id ds =
     (if skip_search_reorder p then
        (case compute_dists q p [node_id] ds of
           Inl e \<Rightarrow> Inl e
         | Inr (dists, ds') \<Rightarrow> (case dists of [] \<Rightarrow> Inl Out_of_bounds | d # _ \<Rightarrow> Inr (d, ds')))
      else if USE_DEFERRED_FETCH p then Inr (0, ds)
      else if recompute_beighbor_embeddings p \<and> dedup_node_dis p \<and> use_partition ix then
        (case node_distances ds node_id of
           Some d \<Rightarrow> Inr (d, ds)
         | None \<Rightarrow> Inr (0, ds\<lparr>node_distances := (node_distances ds)(node_id \<mapsto> 0)\<rparr>))
      else Inr (exact_dist ix q False node_id, ds))"

definition process_cached_nhood ::
  "PQFlashIndex \<Rightarrow> query_env \<Rightarrow> search_params \<Rightarrow> nat \<times> nat list \<Rightarrow> search_state
   \<Rightarrow> error + search_state" where
  "process_cached_nhood ix q p cached_nhood s =
     (case cached_nhood of (node_id, node_nbrs) \<Rightarrow>
        (case cached_expanded_dist ix q p node_id (dst s) of
           Inl e \<Rightarrow> Inl e
         | Inr (cur_expanded_dist, ds1) \<Rightarrow>
             (case compute_dists q p node_nbrs ds1 of
                Inl e \<Rightarrow> Inl e
              | Inr (dists, ds2) \<Rightarrow>
                  Inr (process_nbrs ix p False (zip node_nbrs dists)
                         (s\<lparr>full_retset := full_retset s @ [mk_Neighbor node_id cur_expanded_dist],
                            stats := add_cmps (length node_nbrs) (stats s),
                            dst := ds2\<rparr>)))))"

fun process_cached_nhoods ::
  "PQFlashIndex \<Rightarrow> query_env \<Rightarrow> search_params \<Rightarrow> (nat \<times> nat list) list \<Rightarrow> search_state
   \<Rightarrow> error + search_state" where
  "process_cached_nhoods ix q p [] s = Inr s"
| "process_cached_nhoods ix q p (c # cs) s =
     (case process_cached_nhood ix q p c s of
        Inl e \<Rightarrow> Inl e
      | Inr s' \<Rightarrow> process_cached_nhoods ix q p cs s')"

text \<open>
  One frontier node read from disk. Without \<open>batch_recompute\<close> its neighbours are
  pruned, scored and inserted at once; with it they are appended to
  \<open>batched_node_ids\<close>.
\<close>

definition process_frontier_nhood ::
  "PQFlashIndex \<Rightarrow> query_env \<Rightarrow> search_params \<Rightarrow> nat \<Rightarrow> search_state \<times> nat list
   \<Rightarrow> error + (search_state \<times> nat list)" where
  "process_frontier_nhood ix q p node_id sb =
     (case sb of (s, batched_node_ids) \<Rightarrow>
        (case frontier_expanded_dist ix q p node_id (dst s) of
           Inl e \<Rightarrow> Inl e
         | Inr (cur_expanded_dist, ds1) \<Rightarrow>
             let s1 = s\<lparr>full_retset := full_retset s @ [mk_Neighbor node_id cur_expanded_dist],
                        dst := ds1\<rparr>;
                 node_nbrs = disk_nhood ix node_id
             in if \<not> batch_recompute p then
                  (case prune_node_nbrs q p (visited s1) node_nbrs ds1 of
                     Inl e \<Rightarrow> Inl e
                   | Inr (pruned, ds2) \<Rightarrow>
                       (case compute_dists q p pruned ds2 of
                          Inl e \<Rightarrow> Inl e
                        | Inr (dists, ds3) \<Rightarrow>
                            Inr (process_nbrs ix p True (zip pruned dists)
                                   (s1\<lparr>stats := add_cmps (length pruned) (stats s1),
                                       dst := ds3\<rparr>),
                                 batched_node_ids)))
                else Inr (s1, batched_node_ids @ node_nbrs)))"

fun process_frontier_nhoods ::
  "PQFlashIndex \<Rightarrow> query_env \<Rightarrow> search_params \<Rightarrow> nat list \<Rightarrow> search_state \<times> nat list
   \<Rightarrow> error + (search_state \<times> nat list)" where
  "process_frontier_nhoods ix q p [] sb = Inr sb"
| "process_frontier_nhoods ix q p (f # fs) sb =
     (case process_frontier_nhood ix q p f sb of
        Inl e \<Rightarrow> Inl e
      | Inr sb' \<Rightarrow> process_frontier_nhoods ix q p fs sb')"

definition process_batch ::
  "PQFlashIndex \<Rightarrow> query_env \<Rightarrow> search_params \<Rightarrow> nat list \<Rightarrow> search_state \<Rightarrow> error + search_state" where
  "process_batch ix q p batched_node_ids s =
     (if \<not> batch_recompute p then Inr s
      else
        (case prune_node_nbrs q p (visited s) batched_node_ids (dst s) of
           Inl e \<Rightarrow> Inl e
         | Inr (pruned, ds1) \<Rightarrow>
             (case compute_dists q p pruned ds1 of
                Inl e \<Rightarrow> Inl e
              | Inr (dists, ds2) \<Rightarrow>
                  Inr (process_nbrs ix p True (zip pruned dists) (s\<lparr>dst := ds2\<rparr>)))))"

text \<open>The body of the outer \<open>while\<close>: one hop.\<close>

definition hop ::
  "PQFlashIndex \<Rightarrow> query_env \<Rightarrow> search_params \<Rightarrow> search_state \<Rightarrow> error + search_state" where
  "hop ix q p s =
     (case select_beam ix (beam_width p) (retset s) [] [] 0 (stats s) of
        (rs, frontier, cached_nhoods, st) \<Rightarrow>
          (case process_cached_nhoods ix q p cached_nhoods
                  (issue_reads frontier (s\<lparr>retset := rs, stats := st\<rparr>)) of
             Inl e \<Rightarrow> Inl e
           | Inr s1 \<Rightarrow>
               (case process_frontier_nhoods ix q p frontier (s1, []) of
                  Inl e \<Rightarrow> Inl e
                | Inr (s2, batched_node_ids) \<Rightarrow>
                    (case process_batch ix q p batched_node_ids s2 of
                       Inl e \<Rightarrow> Inl e
                     | Inr s3 \<Rightarrow> Inr (s3\<lparr>hops := u32 (hops s3 + 1)\<rparr>)))))"

text \<open>
  The outer \<open>while (retset.has_unexpanded_node() && num_ios < io_limit)\<close>. The loop
  need not terminate (with \<open>beam_width = 0\<close> no entry is ever popped), so it runs on
  fuel: the number of hops allowed. \<open>None\<close> means the fuel ran out before the loop
  condition became false.
\<close>

fun beam_loop ::
  "nat \<Rightarrow> PQFlashIndex \<Rightarrow> query_env \<Rightarrow> search_params \<Rightarrow> search_state
   \<Rightarrow> (error + search_state) option" where
  "beam_loop 0 ix q p s =
     (if has_unexpanded_node (retset s) \<and> num_ios s < io_limit p then None
      else Some (Inr s))"
| "beam_loop (Suc fuel) ix q p s =
     (if has_unexpanded_node (retset s) \<and> num_ios s < io_limit p then
        (case hop ix q p s of
           Inl e \<Rightarrow> Some (Inl e)
         | Inr s' \<Rightarrow> beam_loop fuel ix q p s')
      else Some (Inr s))"


section \<open>cached\_beam\_search\<close>

subsection \<open>Before the loop: query norm and start medoid\<close>

text \<open>
  \<open>query_norm\<close>: for inner product and cosine the norm of the first \<open>inherent_dim\<close>
  coordinates of the query; it stays \<open>0\<close> for L2.
\<close>

definition query_norm_of :: "PQFlashIndex \<Rightarrow> real list \<Rightarrow> real" where
  "query_norm_of ix qv =
     (if metric ix = INNER_PRODUCT \<or> metric ix = COSINE then
        (let inherent_dim = (if metric ix = COSINE then data_dim ix else data_dim ix - 1)
         in sqrt (fold (\<lambda>x acc. acc + x * x) (take inherent_dim qv) 0))
      else 0)"

fun best_centroid :: "query_env \<Rightarrow> nat list \<Rightarrow> nat \<Rightarrow> nat \<times> real \<Rightarrow> nat \<times> real" where
  "best_centroid q [] cur_m best = best"
| "best_centroid q (m # ms) cur_m (best_medoid, best_dist) =
     (if centroid_dist q cur_m < best_dist
      then best_centroid q ms (Suc cur_m) (m, centroid_dist q cur_m)
      else best_centroid q ms (Suc cur_m) (best_medoid, best_dist))"

fun best_filter_medoid ::
  "query_env \<Rightarrow> search_params \<Rightarrow> nat list \<Rightarrow> nat \<times> real \<Rightarrow> dist_state
   \<Rightarrow> error + ((nat \<times> real) \<times> dist_state)" where
  "best_filter_medoid q p [] best ds = Inr (best, ds)"
| "best_filter_medoid q p (m # ms) (best_medoid, best_dist) ds =
     (case compute_dists q p [m] ds of
        Inl e \<Rightarrow> Inl e
      | Inr (dists, ds') \<Rightarrow>
          (case dists of
             [] \<Rightarrow> Inl Out_of_bounds
           | cur_expanded_dist # _ \<Rightarrow>
               if cur_expanded_dist < best_dist
               then best_filter_medoid q p ms (m, cur_expanded_dist) ds'
               else best_filter_medoid q p ms (best_medoid, best_dist) ds'))"

definition select_medoid ::
  "PQFlashIndex \<Rightarrow> query_env \<Rightarrow> search_params \<Rightarrow> dist_state \<Rightarrow> error + (nat \<times> dist_state)" where
  "select_medoid ix q p ds =
     (if \<not> use_filter p then Inr (fst (best_centroid q (medoids ix) 0 (0, FLT_MAX)), ds)
      else
        (case map_of (filter_to_medoid_ids ix) (filter_label p) of
           None \<Rightarrow> Inl No_medoid_for_filter
         | Some medoid_ids \<Rightarrow>
             (case best_filter_medoid q p medoid_ids (0, FLT_MAX) ds of
                Inl e \<Rightarrow> Inl e
              | Inr (best, ds') \<Rightarrow> Inr (fst best, ds'))))"

text \<open>The scratch after \<open>reset()\<close> and \<open>retset.reserve(l_search)\<close>.\<close>

definition reset_scratch :: "search_params \<Rightarrow> QueryStats option \<Rightarrow> search_state" where
  "reset_scratch p st =
     \<lparr>retset = \<lparr>pq_capacity = l_search p, pq_data = []\<rparr>,
      visited = {},
      full_retset = [],
      num_ios = 0, cmps = 0, hops = 0,
      stats = st,
      dst = \<lparr>node_distances = Map.empty, aq_priority_queue = [], n_fetch = 0\<rparr>\<rparr>"

definition init_search ::
  "PQFlashIndex \<Rightarrow> query_env \<Rightarrow> search_params \<Rightarrow> QueryStats option \<Rightarrow> error + search_state" where
  "init_search ix q p st =
     (let s = reset_scratch p st in
      case select_medoid ix q p (dst s) of
        Inl e \<Rightarrow> Inl e
      | Inr (best_medoid, ds1) \<Rightarrow>
          (case compute_dists q p [best_medoid] ds1 of
             Inl e \<Rightarrow> Inl e
           | Inr (dists, ds2) \<Rightarrow>
               (case dists of
                  [] \<Rightarrow> Inl Out_of_bounds
                | d # _ \<Rightarrow>
                    Inr (s\<lparr>retset := pq_insert (mk_Neighbor best_medoid d) (retset s),
                           visited := insert best_medoid (visited s),
                           dst := ds2\<rparr>))))"

subsection \<open>After the loop: deferred fetch, sort, reorder\<close>

definition sort_retset :: "Neighbor list \<Rightarrow> Neighbor list" where
  \<comment> \<open>\<open>std::sort\<close> with \<open>Neighbor::operator<\<close>: ascending distance, then ascending id\<close>
  "sort_retset ns = sort_key nbr_key ns"

text \<open>
  The deferred fetch. \<open>Inr None\<close> is the early \<open>return\<close> taken when \<open>full_retset\<close> is
  empty. The loop over \<open>real_embeddings\<close> overwrites \<open>full_retset[i].distance\<close> without
  comparing the two sizes.
\<close>

definition deferred_fetch :: "query_env \<Rightarrow> search_state \<Rightarrow> error + search_state option" where
  "deferred_fetch q s =
     (let node_ids = map nbr_id (full_retset s) in
      if node_ids = [] then Inr None
      else
        let (success, real_embeddings) = fetch_embeddings q (n_fetch (dst s)) node_ids in
        if \<not> success then Inl Fetch_failed
        else if length (full_retset s) < length real_embeddings then Inl Out_of_bounds
        else Inr (Some (s\<lparr>full_retset :=
                            map (\<lambda>(n, d). n\<lparr>distance := d\<rparr>) (zip (full_retset s) real_embeddings)
                            @ drop (length real_embeddings) (full_retset s),
                          dst := (dst s)\<lparr>n_fetch := Suc (n_fetch (dst s))\<rparr>\<rparr>)))"

definition reorder :: "PQFlashIndex \<Rightarrow> query_env \<Rightarrow> search_params \<Rightarrow> search_state \<Rightarrow> error + search_state" where
  "reorder ix q p s =
     (if \<not> use_reorder_data p then Inr s
      else if \<not> reorder_data_exists ix then Inl No_reorder_data
      else
        let fr = take (u64 (k_search p * FULL_PRECISION_REORDER_MULTIPLIER)) (full_retset s);
            st = fold (\<lambda>n t. bump_ios t) fr (stats s)
        in Inr (s\<lparr>full_retset :=
                    sort_retset (map (\<lambda>n. n\<lparr>distance := reorder_compare q (nbr_id n)\<rparr>) fr),
                  stats := st\<rparr>))"

text \<open>
  Everything between the loop and the final copy. \<open>Inr None\<close>: the function has
  returned early; \<open>Inr (Some s)\<close>: \<open>full_retset s\<close> is the list the copy reads.
\<close>

definition rerank ::
  "PQFlashIndex \<Rightarrow> query_env \<Rightarrow> search_params \<Rightarrow> search_state \<Rightarrow> error + search_state option" where
  "rerank ix q p s =
     (case (if USE_DEFERRED_FETCH p then deferred_fetch q s else Inr (Some s)) of
        Inl e \<Rightarrow> Inl e
      | Inr None \<Rightarrow> Inr None
      | Inr (Some s1) \<Rightarrow>
          (case reorder ix q p (s1\<lparr>full_retset := sort_retset (full_retset s1)\<rparr>) of
             Inl e \<Rightarrow> Inl e
           | Inr s2 \<Rightarrow> Inr (Some s2)))"

subsection \<open>The final copy\<close>

definition real_id :: "PQFlashIndex \<Rightarrow> nat \<Rightarrow> nat" where
  \<comment> \<open>a dummy id is replaced by \<open>_dummy_to_real_map[key]\<close> (\<open>0\<close> for a key the map lacks)\<close>
  "real_id ix key =
     (if key \<in> dummy_pts ix
      then (case dummy_to_real_map ix key of Some r \<Rightarrow> r | None \<Rightarrow> 0)
      else key)"

definition out_distance :: "PQFlashIndex \<Rightarrow> real \<Rightarrow> real \<Rightarrow> real" where
  "out_distance ix query_norm d =
     (if metric ix = INNER_PRODUCT
      then (if max_base_norm ix \<noteq> 0 then (- d) * (max_base_norm ix * query_norm) else - d)
      else d)"

text \<open>
  One iteration of the copy loop. \<open>full_retset[i]\<close> is read without a test of the size
  of \<open>full_retset\<close>; the caller's buffers must hold \<open>k_search\<close> entries.
\<close>

definition copy_one ::
  "PQFlashIndex \<Rightarrow> real \<Rightarrow> Neighbor list \<Rightarrow> nat \<Rightarrow> nat list \<times> real list option
   \<Rightarrow> error + (nat list \<times> real list option)" where
  "copy_one ix query_norm fr i bufs =
     (case bufs of (ind, dis) \<Rightarrow>
        if length fr \<le> i \<or> length ind \<le> i then Inl Out_of_bounds
        else
          (case dis of
             None \<Rightarrow> Inr (ind[i := real_id ix (nbr_id (fr ! i))], None)
           | Some ds \<Rightarrow>
               if length ds \<le> i then Inl Out_of_bounds
               else Inr (ind[i := real_id ix (nbr_id (fr ! i))],
                         Some (ds[i := out_distance ix query_norm (distance (fr ! i))]))))"

fun copy_k_search ::
  "PQFlashIndex \<Rightarrow> real \<Rightarrow> Neighbor list \<Rightarrow> nat list \<Rightarrow> nat list \<times> real list option
   \<Rightarrow> error + (nat list \<times> real list option)" where
  "copy_k_search ix query_norm fr [] bufs = Inr bufs"
| "copy_k_search ix query_norm fr (i # js) bufs =
     (case copy_one ix query_norm fr i bufs of
        Inl e \<Rightarrow> Inl e
      | Inr bufs' \<Rightarrow> copy_k_search ix query_norm fr js bufs')"

text \<open>What the copy loop leaves in the caller's buffers when every index is in range.\<close>

definition copied_ids :: "PQFlashIndex \<Rightarrow> Neighbor list \<Rightarrow> nat \<Rightarrow> nat list \<Rightarrow> nat list" where
  "copied_ids ix fr k ind = map (\<lambda>n. real_id ix (nbr_id n)) (take k fr) @ drop k ind"

definition copied_dists :: "PQFlashIndex \<Rightarrow> real \<Rightarrow> Neighbor list \<Rightarrow> nat \<Rightarrow> real list \<Rightarrow> real list" where
  "copied_dists ix qn fr k ds = map (\<lambda>n. out_distance ix qn (distance n)) (take k fr) @ drop k ds"

definition copy_fits :: "Neighbor list \<Rightarrow> nat \<Rightarrow> nat list \<Rightarrow> real list option \<Rightarrow> bool" where
  "copy_fits fr k ind dis =
     (k \<le> length fr \<and> k \<le> length ind \<and> (case dis of None \<Rightarrow> True | Some ds \<Rightarrow> k \<le> length ds))"

definition finish ::
  "PQFlashIndex \<Rightarrow> query_env \<Rightarrow> search_params \<Rightarrow> caller_bufs \<Rightarrow> search_state \<Rightarrow> error + caller_bufs" where
  "finish ix q p bufs s =
     (case rerank ix q p s of
        Inl e \<Rightarrow> Inl e
      | Inr None \<Rightarrow> Inr (bufs\<lparr>out_stats := stats s\<rparr>)
      | Inr (Some s') \<Rightarrow>
          (case copy_k_search ix (query_norm_of ix (query1 q)) (full_retset s')
                  [0..<k_search p] (indices bufs, distances bufs) of
             Inl e \<Rightarrow> Inl e
           | Inr (ind, dis) \<Rightarrow> Inr \<lparr>indices = ind, distances = dis, out_stats = stats s'\<rparr>))"

subsection \<open>The whole search\<close>

text \<open>
  The traversal: beam width check, initialisation, and the loop on \<open>fuel\<close> hops.
\<close>

definition traverse ::
  "nat \<Rightarrow> PQFlashIndex \<Rightarrow> query_env \<Rightarrow> search_params \<Rightarrow> QueryStats option
   \<Rightarrow> (error + search_state) option" where
  "traverse fuel ix q p st =
     (if u64 (DIV_ROUND_UP (max_node_len ix) SECTOR_LEN * MAX_N_SECTOR_READS ix) < beam_width p
      then Some (Inl Beamwidth_too_high)
      else
        (case init_search ix q p st of
           Inl e \<Rightarrow> Some (Inl e)
         | Inr s0 \<Rightarrow> beam_loop fuel ix q p s0))"

definition cached_beam_search ::
  "nat \<Rightarrow> PQFlashIndex \<Rightarrow> query_env \<Rightarrow> search_params \<Rightarrow> caller_bufs
   \<Rightarrow> (error + caller_bufs) option" where
  "cached_beam_search fuel ix q p bufs =
     (case traverse fuel ix q p (out_stats bufs) of
        None \<Rightarrow> None
      | Some (Inl e) \<Rightarrow> Some (Inl e)
      | Some (Inr s) \<Rightarrow> Some (finish ix q p bufs s))"

text \<open>
  The list the final copy reads (\<open>full_retset\<close> after deferred fetch, sort and reorder),
  when the search gets that far.
\<close>

definition final_full_retset ::
  "nat \<Rightarrow> PQFlashIndex \<Rightarrow> query_env \<Rightarrow> search_params \<Rightarrow> QueryStats option \<Rightarrow> Neighbor list option" where
  "final_full_retset fuel ix q p st =
     (case traverse fuel ix q p st of
        Some (Inr s) \<Rightarrow>
          (case rerank ix q p s of Inr (Some s') \<Rightarrow> Some (full_retset s') | _ \<Rightarrow> None)
      | _ \<Rightarrow> None)"


section \<open>range\_search\<close>










section \<open>cache\_bfs\_levels\<close>

text \<open>
  The hash sets \<open>node_set\<close>, \<open>cur_level\<close> and \<open>prev_level\<close> are lists without
  repetition in insertion order (the iteration order of the source's sets is
  unspecified). \<open>std::round(num_points * 0.1)\<close> rounds half away from zero, which for a
  count is \<open>(n + 5) div 10\<close>.
\<close>

definition set_insert :: "nat \<Rightarrow> nat list \<Rightarrow> nat list" where
  "set_insert x xs = (if x \<in> set xs then xs else xs @ [x])"

definition tenp_nodes_of :: "nat \<Rightarrow> nat" where
  "tenp_nodes_of n = (n + 5) div 10"

definition capped_request :: "nat \<Rightarrow> nat \<Rightarrow> nat" where
  "capped_request n num_nodes_to_cache =
     (let tenp_nodes = tenp_nodes_of n in
      if tenp_nodes < num_nodes_to_cache
      then (if tenp_nodes = 0 then 1 else tenp_nodes)
      else num_nodes_to_cache)"

fun add_medoids :: "nat list \<Rightarrow> nat \<Rightarrow> nat list \<Rightarrow> nat list" where
  "add_medoids [] cap cur_level = cur_level"
| "add_medoids (m # ms) cap cur_level =
     (if length cur_level < cap then add_medoids ms cap (set_insert m cur_level)
      else cur_level)"

fun add_label_medoids :: "nat list \<Rightarrow> nat \<Rightarrow> nat list \<Rightarrow> nat list" where
  "add_label_medoids [] cap cur_level = cur_level"
| "add_label_medoids (y # ys) cap cur_level =
     (if length (set_insert y cur_level) = cap then set_insert y cur_level
      else add_label_medoids ys cap (set_insert y cur_level))"

fun add_filter_medoids :: "(nat \<times> nat list) list \<Rightarrow> nat \<Rightarrow> nat list \<Rightarrow> nat list" where
  "add_filter_medoids [] cap cur_level = cur_level"
| "add_filter_medoids (x # xs) cap cur_level =
     (if length (add_label_medoids (snd x) cap cur_level) = cap
      then add_label_medoids (snd x) cap cur_level
      else add_filter_medoids xs cap (add_label_medoids (snd x) cap cur_level))"

text \<open>Moving \<open>prev_level\<close> into \<open>node_set\<close> and collecting \<open>nodes_to_expand\<close>.\<close>

fun absorb_level :: "nat list \<Rightarrow> nat list \<times> nat list \<Rightarrow> nat list \<times> nat list" where
  "absorb_level [] acc = acc"
| "absorb_level (i # prev_level) (node_set, nodes_to_expand) =
     (if i \<in> set node_set then absorb_level prev_level (node_set, nodes_to_expand)
      else absorb_level prev_level (node_set @ [i], nodes_to_expand @ [i]))"

text \<open>
  The neighbours of one node that was read: every neighbour outside \<open>node_set\<close> joins
  \<open>cur_level\<close>, until \<open>finish_flag\<close> is set.
\<close>

fun explore_nbrs :: "nat list \<Rightarrow> nat list \<Rightarrow> nat \<Rightarrow> nat list \<times> bool \<Rightarrow> nat list \<times> bool" where
  "explore_nbrs [] node_set cap cf = cf"
| "explore_nbrs (n # ns) node_set cap (cur_level, finish_flag) =
     (if finish_flag then (cur_level, finish_flag)
      else
        let cur' = (if n \<in> set node_set then cur_level else set_insert n cur_level)
        in explore_nbrs ns node_set cap (cur', cap \<le> length cur' + length node_set))"

text \<open>
  The nodes of one level in the order of \<open>nodes_to_expand\<close>. The source reads them in
  blocks of 1024; the blocks only batch the reads, and once \<open>finish_flag\<close> is set no
  later block or node adds anything. A node whose read failed is skipped.
\<close>

fun expand_nodes ::
  "PQFlashIndex \<Rightarrow> nat list \<Rightarrow> nat list \<Rightarrow> nat \<Rightarrow> nat list \<times> bool \<Rightarrow> nat list \<times> bool" where
  "expand_nodes ix [] node_set cap cf = cf"
| "expand_nodes ix (v # vs) node_set cap cf =
     (if read_status ix v
      then expand_nodes ix vs node_set cap (explore_nbrs (disk_nhood ix v) node_set cap cf)
      else expand_nodes ix vs node_set cap cf)"

text \<open>
  \<open>nodes_to_expand\<close> is sorted, or shuffled: a shuffle is the order given by random ranks,
  \<open>Some rank\<close>.
\<close>

definition order_nodes :: "(nat \<Rightarrow> nat) option \<Rightarrow> nat list \<Rightarrow> nat list" where
  "order_nodes shuffle xs = (case shuffle of None \<Rightarrow> sort xs | Some rank \<Rightarrow> sort_key rank xs)"

definition bfs_level ::
  "PQFlashIndex \<Rightarrow> (nat \<Rightarrow> nat) option \<Rightarrow> nat \<Rightarrow> nat list \<times> nat list \<Rightarrow> nat list \<times> nat list" where
  "bfs_level ix shuffle cap nc =
     (case nc of (node_set, prev_level) \<Rightarrow>
        (case absorb_level prev_level (node_set, []) of
           (node_set', nodes_to_expand) \<Rightarrow>
             (node_set',
              fst (expand_nodes ix (order_nodes shuffle nodes_to_expand) node_set' cap
                     ([], False)))))"

text \<open>
  The level loop \<open>while (node_set.size() + cur_level->size() < num_nodes_to_cache &&
  cur_level->size() != 0)\<close>. It terminates: every level either enlarges \<open>node_set\<close>, which
  stays below the cap, or leaves \<open>cur_level\<close> empty.
\<close>

lemma absorb_level_length:
  "absorb_level prev (ns, ex) = (ns', ex') \<Longrightarrow>
     length ns' + length ex = length ns + length ex' \<and> length ns \<le> length ns' \<and>
     length ns' \<le> length ns + length prev"
proof (induction prev arbitrary: ns ex)
  case Nil
  then show ?case by simp
next
  case (Cons i prev)
  show ?case
  proof (cases "i \<in> set ns")
    case True
    with Cons.prems have "absorb_level prev (ns, ex) = (ns', ex')" by simp
    from Cons.IH [OF this] show ?thesis by simp
  next
    case False
    with Cons.prems have "absorb_level prev (ns @ [i], ex @ [i]) = (ns', ex')" by simp
    from Cons.IH [OF this] show ?thesis by simp
  qed
qed

lemma order_nodes_Nil: "order_nodes sh [] = []"
  by (simp add: order_nodes_def split: option.splits)

lemma bfs_level_measure:
  assumes "length ns + length cur < cap" "cur \<noteq> []"
    and "bfs_level ix sh cap (ns, cur) = (ns', cur')"
  shows "2 * (cap - length ns') + (if cur' = [] then 0 else 1)
           < 2 * (cap - length ns) + (if cur = [] then 0 else (1::nat))"
proof -
  obtain ns1 ex1 where ab: "absorb_level cur (ns, []) = (ns1, ex1)"
    by (cases "absorb_level cur (ns, [])") auto
  from assms(3) ab have ns': "ns' = ns1"
    and cur': "cur' = fst (expand_nodes ix (order_nodes sh ex1) ns1 cap ([], False))"
    by (auto simp: bfs_level_def)
  from absorb_level_length [OF ab]
  have len: "length ns1 = length ns + length ex1" "length ns1 \<le> length ns + length cur" by simp_all
  show ?thesis
  proof (cases "ex1 = []")
    case True
    then have "cur' = []" using cur' by (simp add: order_nodes_Nil)
    with True len ns' assms show ?thesis by simp
  next
    case False
    then have "length ns < length ns1" using len by (cases ex1) simp_all
    with len assms(1) have "cap - length ns1 < cap - length ns" by linarith
    with ns' assms(2) show ?thesis by simp
  qed
qed

function bfs_levels ::
  "PQFlashIndex \<Rightarrow> (nat \<Rightarrow> nat) option \<Rightarrow> nat \<Rightarrow> nat list \<times> nat list \<Rightarrow> nat list \<times> nat list" where
  "bfs_levels ix shuffle cap (node_set, cur_level) =
     (if length node_set + length cur_level < cap \<and> cur_level \<noteq> []
      then bfs_levels ix shuffle cap (bfs_level ix shuffle cap (node_set, cur_level))
      else (node_set, cur_level))"
  by pat_completeness auto
termination
proof (relation "measure (\<lambda>(ix, shuffle, cap, node_set, cur_level).
          2 * (cap - length node_set) + (if cur_level = [] then 0 else 1))", goal_cases)
  case 1
  show ?case by simp
next
  case (2 ix shuffle cap node_set cur_level)
  obtain ns' cur' where b: "bfs_level ix shuffle cap (node_set, cur_level) = (ns', cur')"
    by (cases "bfs_level ix shuffle cap (node_set, cur_level)") auto
  from 2 have "length node_set + length cur_level < cap" "cur_level \<noteq> []" by simp_all
  from bfs_level_measure [OF this b] b show ?case by simp
qed

declare bfs_levels.simps [simp del]

definition cache_bfs_levels ::
  "PQFlashIndex \<Rightarrow> nat \<Rightarrow> (nat \<Rightarrow> nat) option \<Rightarrow> nat list" where
  "cache_bfs_levels ix num_nodes_to_cache shuffle =
     (let cap = capped_request (num_points ix) num_nodes_to_cache;
          cur0 = add_medoids (medoids ix) cap [];
          cur1 = (if filter_to_medoid_ids ix \<noteq> [] \<and> length cur0 < cap
                  then add_filter_medoids (filter_to_medoid_ids ix) cap cur0 else cur0)
      in case bfs_levels ix shuffle cap ([], cur1) of
           (node_set, cur_level) \<Rightarrow> node_set @ cur_level)"

section \<open>Invariant of the traversal\<close>







section \<open>Concrete indexes and queries\<close>

text \<open>
  A three-node index: the medoid \<open>0\<close> has the neighbours \<open>1\<close> and \<open>2\<close>, nothing is
  cached, there are no labels and no dummy points. The PQ distance and the exact distance
  of node \<open>i\<close> are both \<open>i\<close>.
\<close>

definition star_index :: PQFlashIndex where
  "star_index =
     \<lparr>max_node_len = 4096, MAX_N_SECTOR_READS = 128, num_points = 3, metric = L2,
      max_base_norm = 0, data_dim = 2, medoids = [0], filter_to_medoid_ids = [],
      nhood_cache = (\<lambda>i. None), disk_nhood = (\<lambda>i. if i = 0 then [1, 2] else []),
      read_status = (\<lambda>i. True), dummy_pts = {}, dummy_to_real_map = (\<lambda>i. None),
      point_has_label = (\<lambda>i l. False), use_universal_label = False,
      universal_filter_label = 0, use_partition = False, use_disk_index_pq = False,
      reorder_data_exists = False\<rparr>"

definition plain_query :: query_env where
  "plain_query =
     \<lparr>query1 = [3, 4, 0], centroid_dist = (\<lambda>m. 1), pq_dist = (\<lambda>i. real i),
      fp_compare = (\<lambda>c i. real i), disk_pq_inner_product = (\<lambda>c i. real i),
      disk_pq_l2_distance = (\<lambda>c i. real i), reorder_compare = (\<lambda>i. real i),
      fetch_embeddings = (\<lambda>n ids. (False, []))\<rparr>"

definition plain_params :: search_params where
  "plain_params =
     \<lparr>k_search = 3, l_search = 3, beam_width = 2, use_filter = False, filter_label = 0,
      io_limit = 4294967295, use_reorder_data = False, USE_DEFERRED_FETCH = False,
      skip_search_reorder = False, recompute_beighbor_embeddings = False,
      dedup_node_dis = False, prune_ratio = 0, batch_recompute = False,
      global_pruning = False\<rparr>"

definition zero_stats :: QueryStats where
  "zero_stats = \<lparr>n_ios = 0, n_4k = 0, n_hops = 0, n_cache_hits = 0, n_cmps = 0\<rparr>"

definition fresh_bufs :: caller_bufs where
  "fresh_bufs = \<lparr>indices = [9, 9, 9], distances = Some [7, 7, 7], out_stats = Some zero_stats\<rparr>"

text \<open>Indexes for the cache warm-up: forty points, and four points.\<close>

definition fan_index :: PQFlashIndex where
  "fan_index = star_index\<lparr>num_points := 40, disk_nhood := (\<lambda>i. if i = 0 then [1, 2, 3, 4, 5] else [])\<rparr>"

definition tiny_index :: PQFlashIndex where
  "tiny_index = star_index\<lparr>num_points := 4\<rparr>"

text \<open>The same graph under inner product, with \<open>max_base_norm = b\<close> and a lifted dimension of 3.\<close>

definition ip_index :: "real \<Rightarrow> PQFlashIndex" where
  "ip_index b = star_index\<lparr>metric := INNER_PRODUCT, max_base_norm := b, data_dim := 3\<rparr>"




section \<open>The final copy\<close>

lemma prefix_update:
  "k < length ys \<Longrightarrow> length xs = k \<Longrightarrow> (xs @ drop k ys)[k := v] = (xs @ [v]) @ drop (Suc k) ys"
proof -
  assume a: "k < length ys" "length xs = k"
  then have "drop k ys = ys ! k # drop (Suc k) ys" by (simp add: Cons_nth_drop_Suc)
  with a show ?thesis by (simp add: list_update_append)
qed

lemma copy_k_search_append:
  "copy_k_search ix qn fr (xs @ ys) b =
     (case copy_k_search ix qn fr xs b of Inl e \<Rightarrow> Inl e | Inr b' \<Rightarrow> copy_k_search ix qn fr ys b')"
  by (induction xs arbitrary: b) (auto split: sum.splits)

lemma copy_k_search_upt:
  "copy_k_search ix qn fr [0..<k] (ind, dis) =
     (if copy_fits fr k ind dis
      then Inr (copied_ids ix fr k ind, map_option (copied_dists ix qn fr k) dis)
      else Inl Out_of_bounds)"
proof (induction k)
  case 0
  show ?case by (cases dis) (simp_all add: copy_fits_def copied_ids_def copied_dists_def)
next
  case (Suc k)
  show ?case
  proof (cases "copy_fits fr k ind dis")
    case False
    then have "\<not> copy_fits fr (Suc k) ind dis"
      by (auto simp: copy_fits_def split: option.splits)
    with False Suc show ?thesis by (simp add: copy_k_search_append)
  next
    case True
    then have kk: "k \<le> length fr" "k \<le> length ind" by (simp_all add: copy_fits_def)
    then have l1: "length (copied_ids ix fr k ind) = length ind" by (simp add: copied_ids_def)
    show ?thesis
    proof (cases "copy_fits fr (Suc k) ind dis")
      case False
      show ?thesis
      proof (cases dis)
        case None
        with False kk have "length fr \<le> k \<or> length ind \<le> k" by (auto simp: copy_fits_def)
        with True False Suc None l1 show ?thesis
          by (auto simp: copy_k_search_append copy_one_def)
      next
        case (Some ds)
        with True have "k \<le> length ds" by (simp add: copy_fits_def)
        then have l2: "length (copied_dists ix qn fr k ds) = length ds" using kk by (simp add: copied_dists_def)
        from False kk Some have "length fr \<le> k \<or> length ind \<le> k \<or> length ds \<le> k"
          by (auto simp: copy_fits_def)
        with True False Suc Some l1 l2 show ?thesis
          by (auto simp: copy_k_search_append copy_one_def)
      qed
    next
      case fits: True
      then have k: "k < length fr" "k < length ind" by (simp_all add: copy_fits_def)
      have ids: "(copied_ids ix fr k ind)[k := real_id ix (nbr_id (fr ! k))] = copied_ids ix fr (Suc k) ind"
        using k by (simp add: copied_ids_def prefix_update take_Suc_conv_app_nth)
      show ?thesis
      proof (cases dis)
        case None
        with True fits Suc k ids show ?thesis
          by (simp add: copy_k_search_append copy_one_def copied_ids_def)
      next
        case (Some ds)
        with fits have kd: "k < length ds" by (simp add: copy_fits_def)
        have dists: "(copied_dists ix qn fr k ds)[k := out_distance ix qn (distance (fr ! k))]
                       = copied_dists ix qn fr (Suc k) ds"
          using k kd by (simp add: copied_dists_def prefix_update take_Suc_conv_app_nth)
        have l1: "length (copied_ids ix fr k ind) = length ind" using k by (simp add: copied_ids_def)
        have l2: "length (copied_dists ix qn fr k ds) = length ds" using k kd by (simp add: copied_dists_def)
        from True fits Suc k kd Some ids dists l1 l2 show ?thesis
          by (simp add: copy_k_search_append copy_one_def)
      qed
    qed
  qed
qed

section \<open>Evaluating the concrete examples\<close>

lemma star_index_simps:
  "max_node_len star_index = 4096" "MAX_N_SECTOR_READS star_index = 128"
  "num_points star_index = 3" "metric star_index = L2" "max_base_norm star_index = 0"
  "data_dim star_index = 2" "medoids star_index = [0]" "filter_to_medoid_ids star_index = []"
  "nhood_cache star_index i = None" "disk_nhood star_index i = (if i = 0 then [1, 2] else [])"
  "read_status star_index i = True" "dummy_pts star_index = {}"
  "dummy_to_real_map star_index i = None" "point_has_label star_index i l = False"
  "use_universal_label star_index = False" "use_partition star_index = False"
  "use_disk_index_pq star_index = False" "reorder_data_exists star_index = False"
  by (simp_all add: star_index_def)

lemma fan_index_simps:
  "num_points fan_index = 40" "medoids fan_index = [0]" "filter_to_medoid_ids fan_index = []"
  "disk_nhood fan_index i = (if i = 0 then [1, 2, 3, 4, 5] else [])"
  "read_status fan_index i = True"
  by (simp_all add: fan_index_def star_index_def)

lemma tiny_index_simps:
  "num_points tiny_index = 4" "medoids tiny_index = [0]" "filter_to_medoid_ids tiny_index = []"
  by (simp_all add: tiny_index_def star_index_def)

lemma plain_query_simps:
  "query1 plain_query = [3, 4, 0]" "centroid_dist plain_query m = 1" "pq_dist plain_query i = real i"
  "fp_compare plain_query c i = real i" "disk_pq_inner_product plain_query c i = real i"
  "disk_pq_l2_distance plain_query c i = real i" "reorder_compare plain_query i = real i"
  "fetch_embeddings plain_query n ids = (False, [])"
  by (simp_all add: plain_query_def)

lemma plain_params_simps:
  "k_search plain_params = 3" "l_search plain_params = 3" "beam_width plain_params = 2"
  "use_filter plain_params = False" "filter_label plain_params = 0"
  "io_limit plain_params = 4294967295" "use_reorder_data plain_params = False"
  "USE_DEFERRED_FETCH plain_params = False" "skip_search_reorder plain_params = False"
  "recompute_beighbor_embeddings plain_params = False" "dedup_node_dis plain_params = False"
  "prune_ratio plain_params = 0" "batch_recompute plain_params = False"
  "global_pruning plain_params = False"
  by (simp_all add: plain_params_def)

lemma fresh_bufs_simps:
  "indices fresh_bufs = [9, 9, 9]" "distances fresh_bufs = Some [7, 7, 7]"
  "out_stats fresh_bufs = Some zero_stats"
  by (simp_all add: fresh_bufs_def)

lemmas search_eval =
  cached_beam_search_def traverse_def u64_def u32_def DIV_ROUND_UP_def SECTOR_LEN_def
  init_search_def reset_scratch_def select_medoid_def FLT_MAX_def compute_dists_def pq_dists_def
  pq_insert_def mk_Neighbor_def nbr_key_def has_unexpanded_node_def hop_def closest_unexpanded_def
  issue_reads_def bump_hops_def bump_ios_def bump_cache_hits_def add_cmps_def
  process_cached_nhood_def cached_expanded_dist_def
  process_frontier_nhood_def frontier_expanded_dist_def exact_dist_def prune_node_nbrs_def
  process_batch_def finish_def rerank_def deferred_fetch_def sort_retset_def reorder_def
  copy_k_search_upt copy_fits_def copied_ids_def copied_dists_def real_id_def out_distance_def
  query_norm_of_def zero_stats_def FULL_PRECISION_REORDER_MULTIPLIER_def

section \<open>The result of a search, by stage\<close>



lemma final_full_retset_Some:
  "final_full_retset fuel ix q p st = Some fr \<longleftrightarrow>
     (\<exists>s s'. traverse fuel ix q p st = Some (Inr s) \<and> rerank ix q p s = Inr (Some s') \<and>
             fr = full_retset s')"
  by (auto simp: final_full_retset_def split: option.splits sum.splits)

lemma cached_beam_search_early:
  "traverse fuel ix q p (out_stats bufs) = Some (Inr s) \<Longrightarrow> rerank ix q p s = Inr None \<Longrightarrow>
   cached_beam_search fuel ix q p bufs = Some (Inr (bufs\<lparr>out_stats := stats s\<rparr>))"
  by (simp add: cached_beam_search_def finish_def)

lemma cached_beam_search_copy:
  "traverse fuel ix q p (out_stats bufs) = Some (Inr s) \<Longrightarrow> rerank ix q p s = Inr (Some s') \<Longrightarrow>
   cached_beam_search fuel ix q p bufs =
     (if copy_fits (full_retset s') (k_search p) (indices bufs) (distances bufs)
      then Some (Inr \<lparr>indices = copied_ids ix (full_retset s') (k_search p) (indices bufs),
                      distances = map_option (copied_dists ix (query_norm_of ix (query1 q))
                                    (full_retset s') (k_search p)) (distances bufs),
                      out_stats = stats s'\<rparr>)
      else Some (Inl Out_of_bounds))"
  by (simp add: cached_beam_search_def finish_def copy_k_search_upt)

lemma cached_beam_search_final:
  assumes "cached_beam_search fuel ix q p bufs = Some (Inr out)"
    and "final_full_retset fuel ix q p (out_stats bufs) = Some fr"
  shows "copy_fits fr (k_search p) (indices bufs) (distances bufs) \<and>
         indices out = copied_ids ix fr (k_search p) (indices bufs) \<and>
         distances out = map_option (copied_dists ix (query_norm_of ix (query1 q)) fr (k_search p))
                           (distances bufs)"
proof -
  from assms(2) obtain s s' where t: "traverse fuel ix q p (out_stats bufs) = Some (Inr s)"
    and r: "rerank ix q p s = Inr (Some s')" and fr: "fr = full_retset s'"
    by (auto simp: final_full_retset_Some)
  from assms(1) cached_beam_search_copy [OF t r] fr show ?thesis
    by (auto split: if_splits)
qed

section \<open>Which errors a search can raise\<close>

lemma dedup_fill_error:
  "dedup_fill cs node_ids embs i idx dists memo = Inl e \<Longrightarrow> e = Out_of_bounds"
  by (induction cs arbitrary: i idx dists memo) (auto split: if_splits)

lemma compute_dists_error: "compute_dists q p ids ds = Inl e \<Longrightarrow> e = Out_of_bounds"
  by (auto simp: compute_dists_def Let_def split: if_splits prod.splits sum.splits dest: dedup_fill_error)

lemma prune_node_nbrs_error: "prune_node_nbrs q p vis nbrs ds = Inl e \<Longrightarrow> e = Out_of_bounds"
  by (auto simp: prune_node_nbrs_def Let_def split: if_splits)

lemma cached_expanded_dist_error:
  "cached_expanded_dist ix q p i ds = Inl e \<Longrightarrow> e = Out_of_bounds"
  by (auto simp: cached_expanded_dist_def split: if_splits sum.splits list.splits prod.splits
      dest: compute_dists_error)

lemma frontier_expanded_dist_error:
  "frontier_expanded_dist ix q p i ds = Inl e \<Longrightarrow> e = Out_of_bounds"
  by (auto simp: frontier_expanded_dist_def split: if_splits sum.splits list.splits prod.splits option.splits
      dest: compute_dists_error)

lemma process_cached_nhood_error:
  "process_cached_nhood ix q p c s = Inl e \<Longrightarrow> e = Out_of_bounds"
  by (auto simp: process_cached_nhood_def split: sum.splits prod.splits
      dest: compute_dists_error cached_expanded_dist_error)

lemma process_cached_nhoods_error:
  "process_cached_nhoods ix q p cs s = Inl e \<Longrightarrow> e = Out_of_bounds"
  by (induction cs arbitrary: s) (auto split: sum.splits dest: process_cached_nhood_error)

lemma process_frontier_nhood_error:
  "process_frontier_nhood ix q p f sb = Inl e \<Longrightarrow> e = Out_of_bounds"
  by (auto simp: process_frontier_nhood_def Let_def split: sum.splits prod.splits if_splits
      dest: compute_dists_error frontier_expanded_dist_error prune_node_nbrs_error)

lemma process_frontier_nhoods_error:
  "process_frontier_nhoods ix q p fs sb = Inl e \<Longrightarrow> e = Out_of_bounds"
  by (induction fs arbitrary: sb) (auto split: sum.splits dest: process_frontier_nhood_error)

lemma process_batch_error:
  "process_batch ix q p b s = Inl e \<Longrightarrow> e = Out_of_bounds"
  by (auto simp: process_batch_def split: sum.splits prod.splits if_splits
      dest: compute_dists_error prune_node_nbrs_error)

lemma hop_error: "hop ix q p s = Inl e \<Longrightarrow> e = Out_of_bounds"
  by (auto simp: hop_def split: sum.splits prod.splits
      dest: process_cached_nhoods_error process_frontier_nhoods_error process_batch_error)

lemma beam_loop_error: "beam_loop fuel ix q p s = Some (Inl e) \<Longrightarrow> e = Out_of_bounds"
  by (induction fuel arbitrary: s) (auto split: if_splits sum.splits dest: hop_error)

lemma best_filter_medoid_error:
  "best_filter_medoid q p ms best ds = Inl e \<Longrightarrow> e = Out_of_bounds"
  by (induction ms arbitrary: best ds)
     (auto split: sum.splits prod.splits list.splits if_splits dest: compute_dists_error)

lemma init_search_error:
  "init_search ix q p st = Inl e \<Longrightarrow> e = Out_of_bounds \<or> e = No_medoid_for_filter"
  by (auto simp: init_search_def select_medoid_def Let_def
      split: sum.splits prod.splits list.splits if_splits option.splits
      dest: compute_dists_error best_filter_medoid_error)

lemma rerank_error:
  "rerank ix q p s = Inl e \<Longrightarrow>
     e = Out_of_bounds \<or> e = No_reorder_data \<or> (e = Fetch_failed \<and> USE_DEFERRED_FETCH p)"
  by (auto simp: rerank_def deferred_fetch_def reorder_def Let_def
      split: sum.splits prod.splits if_splits option.splits)

lemma finish_error:
  "finish ix q p bufs s = Inl e \<Longrightarrow>
     e = Out_of_bounds \<or> e = No_reorder_data \<or> (e = Fetch_failed \<and> USE_DEFERRED_FETCH p)"
  by (auto simp: finish_def copy_k_search_upt split: sum.splits option.splits if_splits prod.splits
      dest: rerank_error)

section \<open>The beam width check\<close>

lemma DIV_ROUND_UP_ceiling:
  assumes "0 < y"
  shows "DIV_ROUND_UP x y = nat \<lceil>real x / real y\<rceil>"
proof -
  define d where "d = x div y"
  define m where "m = x mod y"
  have m: "m < y" using assms by (simp add: m_def)
  have "x = d * y + m" by (simp add: d_def m_def)
  then have "real x = real d * real y + real m" by (metis of_nat_add of_nat_mult)
  then have split: "real x / real y = real m / real y + of_int (int d)"
    using assms by (simp add: field_simps)
  show ?thesis
  proof (cases "m = 0")
    case True
    with split have "\<lceil>real x / real y\<rceil> = int d" by simp
    with True show ?thesis by (simp add: DIV_ROUND_UP_def d_def m_def)
  next
    case False
    then have "0 < real m / real y" "real m / real y \<le> 1" using m assms by simp_all
    then have "\<lceil>real m / real y\<rceil> = 1" by (intro ceiling_unique) simp_all
    then have "\<lceil>real x / real y\<rceil> = 1 + int d" unfolding split ceiling_add_of_int by simp
    with False show ?thesis by (simp add: DIV_ROUND_UP_def d_def m_def)
  qed
qed

lemma u64_id: "x < 2 ^ 64 \<Longrightarrow> u64 x = x"
  by (simp add: u64_def)

text \<open>
  Claim C4: a beam width above \<open>ceil(max_node_len / SECTOR_LEN) * MAX_N_SECTOR_READS\<close>
  makes the search throw at once, whatever the index, the query and the fuel (so before
  any hop of the traversal); any other beam width passes the check, and the search goes
  on with the choice of the medoid and the loop. The product is a \<open>uint64_t\<close>.
\<close>

theorem beamwidth_check:
  assumes "DIV_ROUND_UP (max_node_len ix) SECTOR_LEN * MAX_N_SECTOR_READS ix < 2 ^ 64"
  shows "(nat \<lceil>real (max_node_len ix) / real SECTOR_LEN\<rceil> * MAX_N_SECTOR_READS ix < beam_width p \<longrightarrow>
            cached_beam_search fuel ix q p bufs = Some (Inl Beamwidth_too_high)) \<and>
         (beam_width p \<le> nat \<lceil>real (max_node_len ix) / real SECTOR_LEN\<rceil> * MAX_N_SECTOR_READS ix \<longrightarrow>
            cached_beam_search fuel ix q p bufs \<noteq> Some (Inl Beamwidth_too_high) \<and>
            traverse fuel ix q p (out_stats bufs) =
              (case init_search ix q p (out_stats bufs) of
                 Inl e \<Rightarrow> Some (Inl e)
               | Inr s0 \<Rightarrow> beam_loop fuel ix q p s0))"
proof -
  have c: "nat \<lceil>real (max_node_len ix) / real SECTOR_LEN\<rceil> = DIV_ROUND_UP (max_node_len ix) SECTOR_LEN"
    by (rule DIV_ROUND_UP_ceiling [symmetric]) (simp add: SECTOR_LEN_def)
  have u: "u64 (DIV_ROUND_UP (max_node_len ix) SECTOR_LEN * MAX_N_SECTOR_READS ix)
             = DIV_ROUND_UP (max_node_len ix) SECTOR_LEN * MAX_N_SECTOR_READS ix"
    using assms by (rule u64_id)
  show ?thesis
  proof (intro conjI impI)
    assume "nat \<lceil>real (max_node_len ix) / real SECTOR_LEN\<rceil> * MAX_N_SECTOR_READS ix < beam_width p"
    then show "cached_beam_search fuel ix q p bufs = Some (Inl Beamwidth_too_high)"
      by (simp add: cached_beam_search_def traverse_def u c)
  next
    assume le: "beam_width p \<le> nat \<lceil>real (max_node_len ix) / real SECTOR_LEN\<rceil> * MAX_N_SECTOR_READS ix"
    then show t: "traverse fuel ix q p (out_stats bufs) =
              (case init_search ix q p (out_stats bufs) of
                 Inl e \<Rightarrow> Some (Inl e)
               | Inr s0 \<Rightarrow> beam_loop fuel ix q p s0)"
      by (simp add: traverse_def u c)
    show "cached_beam_search fuel ix q p bufs \<noteq> Some (Inl Beamwidth_too_high)"
    proof
      assume "cached_beam_search fuel ix q p bufs = Some (Inl Beamwidth_too_high)"
      then consider
          "traverse fuel ix q p (out_stats bufs) = Some (Inl Beamwidth_too_high)"
        | s where "finish ix q p bufs s = Inl Beamwidth_too_high"
        by (auto simp: cached_beam_search_def split: option.splits sum.splits)
      then show False
      proof cases
        case 1
        with t show False
          by (auto split: sum.splits dest: init_search_error beam_loop_error beam_loop_error [OF sym])
      next
        case 2
        then show False by (auto dest: finish_error)
      qed
    qed
  qed
qed

theorem beamwidth_check_witness:
  "DIV_ROUND_UP (max_node_len star_index) SECTOR_LEN * MAX_N_SECTOR_READS star_index < 2 ^ 64 \<and>
   nat \<lceil>real (max_node_len star_index) / real SECTOR_LEN\<rceil> * MAX_N_SECTOR_READS star_index
     < beam_width (plain_params\<lparr>beam_width := 129\<rparr>) \<and>
   cached_beam_search 0 star_index plain_query (plain_params\<lparr>beam_width := 129\<rparr>) fresh_bufs
     = Some (Inl Beamwidth_too_high) \<and>
   beam_width (plain_params\<lparr>beam_width := 128\<rparr>)
     \<le> nat \<lceil>real (max_node_len star_index) / real SECTOR_LEN\<rceil> * MAX_N_SECTOR_READS star_index \<and>
   cached_beam_search 0 star_index plain_query (plain_params\<lparr>beam_width := 128\<rparr>) fresh_bufs
     \<noteq> Some (Inl Beamwidth_too_high)"
proof -
  have a: "DIV_ROUND_UP (max_node_len star_index) SECTOR_LEN * MAX_N_SECTOR_READS star_index < 2 ^ 64"
    by (simp add: DIV_ROUND_UP_def SECTOR_LEN_def star_index_simps)
  have b: "nat \<lceil>real (max_node_len star_index) / real SECTOR_LEN\<rceil> * MAX_N_SECTOR_READS star_index = 128"
    by (simp add: SECTOR_LEN_def star_index_simps)
  show ?thesis
    using a b
      beamwidth_check [OF a, of "plain_params\<lparr>beam_width := 129\<rparr>" 0 plain_query fresh_bufs]
      beamwidth_check [OF a, of "plain_params\<lparr>beam_width := 128\<rparr>" 0 plain_query fresh_bufs]
    by simp
qed

section \<open>cache\_bfs\_levels: the cap\<close>

lemma set_insert_length: "length (set_insert x xs) \<le> Suc (length xs)" "length xs \<le> length (set_insert x xs)"
  by (simp_all add: set_insert_def)

lemma add_medoids_le: "length cur \<le> cap \<Longrightarrow> length (add_medoids ms cap cur) \<le> cap"
proof (induction ms arbitrary: cur)
  case Nil then show ?case by simp
next
  case (Cons m ms)
  show ?case
  proof (cases "length cur < cap")
    case True
    then have "length (set_insert m cur) \<le> cap" using set_insert_length(1) [of m cur] by linarith
    from Cons.IH [OF this] True show ?thesis by simp
  next
    case False with Cons.prems show ?thesis by simp
  qed
qed

lemma add_label_medoids_le: "length cur < cap \<Longrightarrow> length (add_label_medoids ys cap cur) \<le> cap"
proof (induction ys arbitrary: cur)
  case Nil then show ?case by simp
next
  case (Cons y ys)
  have le: "length (set_insert y cur) \<le> cap" using Cons.prems set_insert_length(1) [of y cur] by linarith
  show ?case
  proof (cases "length (set_insert y cur) = cap")
    case True then show ?thesis by simp
  next
    case False
    with le have "length (set_insert y cur) < cap" by simp
    from Cons.IH [OF this] False show ?thesis by simp
  qed
qed

lemma add_filter_medoids_le: "length cur < cap \<Longrightarrow> length (add_filter_medoids xs cap cur) \<le> cap"
proof (induction xs arbitrary: cur)
  case Nil then show ?case by simp
next
  case (Cons x xs)
  have le: "length (add_label_medoids (snd x) cap cur) \<le> cap" using Cons.prems by (rule add_label_medoids_le)
  show ?case
  proof (cases "length (add_label_medoids (snd x) cap cur) = cap")
    case True then show ?thesis by simp
  next
    case False
    with le have "length (add_label_medoids (snd x) cap cur) < cap" by simp
    from Cons.IH [OF this] False show ?thesis by simp
  qed
qed

lemma explore_nbrs_inv:
  "length cur + length ns \<le> cap \<Longrightarrow> (\<not> fin \<longrightarrow> length cur + length ns < cap) \<Longrightarrow>
   length (fst (explore_nbrs nbrs ns cap (cur, fin))) + length ns \<le> cap \<and>
   (\<not> snd (explore_nbrs nbrs ns cap (cur, fin)) \<longrightarrow>
      length (fst (explore_nbrs nbrs ns cap (cur, fin))) + length ns < cap)"
proof (induction nbrs arbitrary: cur fin)
  case Nil then show ?case by simp
next
  case (Cons n nbrs)
  show ?case
  proof (cases fin)
    case True with Cons.prems show ?thesis by simp
  next
    case False
    define cur' where "cur' = (if n \<in> set ns then cur else set_insert n cur)"
    have "length cur' \<le> Suc (length cur)" using set_insert_length(1) [of n cur] by (simp add: cur'_def)
    with Cons.prems False have a: "length cur' + length ns \<le> cap" by simp
    have b: "\<not> (cap \<le> length cur' + length ns) \<longrightarrow> length cur' + length ns < cap" by simp
    from Cons.IH [OF a b] False show ?thesis by (simp add: cur'_def Let_def)
  qed
qed

lemma expand_nodes_inv:
  "length (fst cf) + length ns \<le> cap \<Longrightarrow> (\<not> snd cf \<longrightarrow> length (fst cf) + length ns < cap) \<Longrightarrow>
   length (fst (expand_nodes ix vs ns cap cf)) + length ns \<le> cap \<and>
   (\<not> snd (expand_nodes ix vs ns cap cf) \<longrightarrow> length (fst (expand_nodes ix vs ns cap cf)) + length ns < cap)"
proof (induction vs arbitrary: cf)
  case Nil then show ?case by simp
next
  case (Cons v vs)
  show ?case
  proof (cases "read_status ix v")
    case True
    obtain cur fin where cf: "cf = (cur, fin)" by (cases cf)
    from explore_nbrs_inv [of cur ns cap fin "disk_nhood ix v"] Cons.prems cf
    have "length (fst (explore_nbrs (disk_nhood ix v) ns cap cf)) + length ns \<le> cap"
      "\<not> snd (explore_nbrs (disk_nhood ix v) ns cap cf) \<longrightarrow>
         length (fst (explore_nbrs (disk_nhood ix v) ns cap cf)) + length ns < cap" by simp_all
    from Cons.IH [OF this] True show ?thesis by simp
  next
    case False
    with Cons.IH [OF Cons.prems] show ?thesis by simp
  qed
qed

lemma bfs_level_le:
  assumes "length ns + length cur < cap" "bfs_level ix sh cap (ns, cur) = (ns', cur')"
  shows "length ns' + length cur' \<le> cap"
proof -
  obtain ns1 ex1 where ab: "absorb_level cur (ns, []) = (ns1, ex1)"
    by (cases "absorb_level cur (ns, [])") auto
  from assms(2) ab have ns': "ns' = ns1"
    and cur': "cur' = fst (expand_nodes ix (order_nodes sh ex1) ns1 cap ([], False))"
    by (auto simp: bfs_level_def)
  from absorb_level_length [OF ab] assms(1) have "length ns1 < cap" by simp
  then have "length (fst ([]::nat list, False)) + length ns1 \<le> cap"
    "\<not> snd ([]::nat list, False) \<longrightarrow> length (fst ([]::nat list, False)) + length ns1 < cap" by simp_all
  from expand_nodes_inv [OF this, of ix "order_nodes sh ex1"] ns' cur' show ?thesis by simp
qed

lemma bfs_levels_le:
  "length (fst nc) + length (snd nc) \<le> cap \<Longrightarrow>
   length (fst (bfs_levels ix sh cap nc)) + length (snd (bfs_levels ix sh cap nc)) \<le> cap"
proof (induction ix sh cap nc rule: bfs_levels.induct)
  case (1 ix shuffle cap node_set cur_level)
  show ?case
  proof (cases "length node_set + length cur_level < cap \<and> cur_level \<noteq> []")
    case True
    obtain ns' cur' where b: "bfs_level ix shuffle cap (node_set, cur_level) = (ns', cur')"
      by (cases "bfs_level ix shuffle cap (node_set, cur_level)") auto
    from True bfs_level_le [OF _ b] have le: "length ns' + length cur' \<le> cap" by simp
    have eq: "bfs_levels ix shuffle cap (node_set, cur_level) = bfs_levels ix shuffle cap (ns', cur')"
      using True b by (simp add: bfs_levels.simps [of ix shuffle cap node_set cur_level])
    from "1.IH" [OF True] le b show ?thesis by (simp add: eq)
  next
    case False
    then have "bfs_levels ix shuffle cap (node_set, cur_level) = (node_set, cur_level)"
      by (subst bfs_levels.simps) auto
    with "1.prems" show ?thesis by simp
  qed
qed

lemma cache_bfs_levels_cap:
  "length (cache_bfs_levels ix num_nodes_to_cache shuffle)
     \<le> capped_request (num_points ix) num_nodes_to_cache"
proof -
  define cap where "cap = capped_request (num_points ix) num_nodes_to_cache"
  define cur0 where "cur0 = add_medoids (medoids ix) cap []"
  define cur1 where "cur1 = (if filter_to_medoid_ids ix \<noteq> [] \<and> length cur0 < cap
                  then add_filter_medoids (filter_to_medoid_ids ix) cap cur0 else cur0)"
  have c0: "length cur0 \<le> cap" unfolding cur0_def by (rule add_medoids_le) simp
  have c1: "length cur1 \<le> cap" unfolding cur1_def using c0 add_filter_medoids_le by simp
  then have "length (fst ([]::nat list, cur1)) + length (snd ([]::nat list, cur1)) \<le> cap" by simp
  from bfs_levels_le [OF this, of ix shuffle]
  have "length (fst (bfs_levels ix shuffle cap ([], cur1))) +
        length (snd (bfs_levels ix shuffle cap ([], cur1))) \<le> cap" .
  moreover have "cache_bfs_levels ix num_nodes_to_cache shuffle =
      fst (bfs_levels ix shuffle cap ([], cur1)) @ snd (bfs_levels ix shuffle cap ([], cur1))"
    by (simp add: cache_bfs_levels_def Let_def cap_def cur0_def cur1_def split: prod.splits)
  ultimately show ?thesis by (simp add: cap_def)
qed

text \<open>
  Claim C8, as the code has it: a request above \<open>round(0.1 N)\<close> is reduced to
  \<open>round(0.1 N)\<close>, or to \<open>1\<close> when that is \<open>0\<close>, and the node list returned by the
  breadth-first search never has more entries than the (reduced) request.
\<close>

theorem cache_bfs_levels_capped:
  "length (cache_bfs_levels ix num_nodes_to_cache shuffle)
     \<le> capped_request (num_points ix) num_nodes_to_cache \<and>
   (tenp_nodes_of (num_points ix) < num_nodes_to_cache \<longrightarrow>
      capped_request (num_points ix) num_nodes_to_cache = max 1 (tenp_nodes_of (num_points ix)))"
  using cache_bfs_levels_cap [of ix num_nodes_to_cache shuffle]
  by (simp add: capped_request_def Let_def)

lemma fan_level:
  "bfs_level fan_index None 4 ([], [0]) = ([0], [1, 2, 3])"
  by (simp add: bfs_level_def order_nodes_def fan_index_simps set_insert_def)

lemma fan_bfs: "cache_bfs_levels fan_index 10 None = [0, 1, 2, 3]"
proof -
  have cap: "capped_request 40 10 = 4"
    by (simp add: capped_request_def tenp_nodes_of_def)
  have "bfs_levels fan_index None 4 ([], [0]) = bfs_levels fan_index None 4 ([0], [1, 2, 3])"
    by (subst bfs_levels.simps) (simp add: fan_level)
  also have "\<dots> = ([0], [1, 2, 3])"
    by (subst bfs_levels.simps) simp
  finally show ?thesis
    by (simp add: cache_bfs_levels_def cap Let_def set_insert_def fan_index_simps)
qed

theorem cache_bfs_levels_capped_witness:
  "tenp_nodes_of (num_points fan_index) < 10 \<and>
   capped_request (num_points fan_index) 10 = 4 \<and>
   cache_bfs_levels fan_index 10 None = [0, 1, 2, 3] \<and>
   length (cache_bfs_levels fan_index 10 None) \<le> capped_request (num_points fan_index) 10"
  using cache_bfs_levels_capped [of fan_index 10 None] fan_bfs
  by (simp add: tenp_nodes_of_def capped_request_def fan_index_simps)

text \<open>
  With four points, ten percent is less than one node; a request of three is reduced to
  one node, not to ten percent of four, and the medoid is returned.
\<close>

theorem cache_bfs_levels_ten_percent_counterexample:
  "0.1 * real (num_points tiny_index) < 3 \<and>
   capped_request (num_points tiny_index) 3 = 1 \<and>
   tenp_nodes_of (num_points tiny_index) = 0 \<and>
   cache_bfs_levels tiny_index 3 None = [0] \<and>
   \<not> real (length (cache_bfs_levels tiny_index 3 None)) \<le> 0.1 * real (num_points tiny_index)"
proof -
  have cap: "capped_request 4 3 = 1"
    by (simp add: capped_request_def tenp_nodes_of_def)
  have "bfs_levels tiny_index None 1 ([], [0]) = ([], [0])"
    by (subst bfs_levels.simps) simp
  then have "cache_bfs_levels tiny_index 3 None = [0]"
    by (simp add: cache_bfs_levels_def cap Let_def set_insert_def tiny_index_simps)
  then show ?thesis
    using cap by (simp add: tenp_nodes_of_def tiny_index_simps)
qed

section \<open>Early return of the deferred fetch\<close>

lemma rerank_deferred_empty:
  "USE_DEFERRED_FETCH p \<Longrightarrow> full_retset s = [] \<Longrightarrow> rerank ix q p s = Inr None"
  by (simp add: rerank_def deferred_fetch_def)

text \<open>
  Claim C10: with deferred fetch enabled, a traversal that ends with an empty
  \<open>full_retset\<close> makes the search return before the sort, the reorder and the copy; the
  caller's \<open>indices\<close> and \<open>distances\<close> are what they were before the call.
\<close>

theorem deferred_empty_returns_early:
  assumes "USE_DEFERRED_FETCH p"
    and "traverse fuel ix q p (out_stats bufs) = Some (Inr s)"
    and "full_retset s = []"
  shows "rerank ix q p s = Inr None \<and>
         (\<exists>out. cached_beam_search fuel ix q p bufs = Some (Inr out) \<and>
                indices out = indices bufs \<and> distances out = distances bufs)"
proof -
  have r: "rerank ix q p s = Inr None"
    using assms(1,3) by (rule rerank_deferred_empty)
  from cached_beam_search_early [OF assms(2) r] r show ?thesis by simp
qed

theorem deferred_empty_returns_early_witness:
  "USE_DEFERRED_FETCH (plain_params\<lparr>io_limit := 0, USE_DEFERRED_FETCH := True\<rparr>) \<and>
   (\<exists>s. traverse 0 star_index plain_query (plain_params\<lparr>io_limit := 0, USE_DEFERRED_FETCH := True\<rparr>)
           (out_stats fresh_bufs) = Some (Inr s) \<and> full_retset s = []) \<and>
   (\<exists>out. cached_beam_search 0 star_index plain_query
             (plain_params\<lparr>io_limit := 0, USE_DEFERRED_FETCH := True\<rparr>) fresh_bufs = Some (Inr out) \<and>
          indices out = [9, 9, 9] \<and> distances out = Some [7, 7, 7])"
proof -
  let ?p = "plain_params\<lparr>io_limit := 0, USE_DEFERRED_FETCH := True\<rparr>"
  have d: "USE_DEFERRED_FETCH ?p" by simp
  obtain s where t: "traverse 0 star_index plain_query ?p (out_stats fresh_bufs) = Some (Inr s)"
    and e: "full_retset s = []"
    by (simp add: search_eval star_index_simps plain_query_simps plain_params_simps fresh_bufs_simps)
  from deferred_empty_returns_early [OF d t e] d t e show ?thesis
    by (simp add: fresh_bufs_simps)
qed

section \<open>The top-k copy and the size of full\_retset\<close>

lemma rerank_length:
  "\<not> use_reorder_data p \<Longrightarrow> rerank ix q p s = Inr (Some s') \<Longrightarrow>
   length (full_retset s') = length (full_retset s)"
  by (auto simp: rerank_def deferred_fetch_def reorder_def sort_retset_def Let_def
      split: sum.splits option.splits if_splits prod.splits)

text \<open>
  Claim C9, as the code has it: the copy reads \<open>full_retset[i]\<close> for every
  \<open>i < k_search\<close> without a test, so a search that reaches the copy with fewer than
  \<open>k_search\<close> entries reads past the end. Without reorder data the list has as many
  entries at the copy as at the end of the traversal. The copy is not reached when the
  search has returned early (deferred fetch with an empty \<open>full_retset\<close>) or thrown.
\<close>

theorem copy_needs_k_entries:
  assumes "traverse fuel ix q p (out_stats bufs) = Some (Inr s)"
    and "rerank ix q p s = Inr (Some s')"
  shows "(length (full_retset s') < k_search p \<longrightarrow>
            cached_beam_search fuel ix q p bufs = Some (Inl Out_of_bounds)) \<and>
         (cached_beam_search fuel ix q p bufs = Some (Inl Out_of_bounds) \<longleftrightarrow>
            \<not> copy_fits (full_retset s') (k_search p) (indices bufs) (distances bufs)) \<and>
         (\<not> use_reorder_data p \<longrightarrow> length (full_retset s') = length (full_retset s))"
  using cached_beam_search_copy [OF assms] rerank_length [OF _ assms(2)]
  by (auto simp: copy_fits_def)

theorem copy_needs_k_entries_witness:
  "(\<exists>s s'. traverse (Suc 0) star_index plain_query (plain_params\<lparr>io_limit := 1\<rparr>)
              (out_stats fresh_bufs) = Some (Inr s) \<and>
           rerank star_index plain_query (plain_params\<lparr>io_limit := 1\<rparr>) s = Inr (Some s') \<and>
           length (full_retset s) = 1 \<and> length (full_retset s') < k_search (plain_params\<lparr>io_limit := 1\<rparr>)) \<and>
   cached_beam_search (Suc 0) star_index plain_query (plain_params\<lparr>io_limit := 1\<rparr>) fresh_bufs
     = Some (Inl Out_of_bounds)"
proof -
  let ?p = "plain_params\<lparr>io_limit := 1\<rparr>"
  obtain s where t: "traverse (Suc 0) star_index plain_query ?p (out_stats fresh_bufs) = Some (Inr s)"
    and l: "length (full_retset s) = 1"
    by (simp add: search_eval star_index_simps plain_query_simps plain_params_simps fresh_bufs_simps)
  obtain s' where r: "rerank star_index plain_query ?p s = Inr (Some s')"
    by (simp add: rerank_def reorder_def plain_params_simps)
  have nr: "\<not> use_reorder_data ?p" by (simp add: plain_params_simps)
  from copy_needs_k_entries [OF t r] nr l have
    "length (full_retset s') < k_search ?p" by (simp add: plain_params_simps)
  with copy_needs_k_entries [OF t r] t r l show ?thesis by blast
qed

text \<open>
  A search that expands no node at all, with \<open>k_search = 3\<close>, and does not read past the
  end of \<open>full_retset\<close>: with deferred fetch it returns before the copy.
\<close>

theorem few_nodes_no_read_counterexample:
  "(\<exists>s. traverse 0 star_index plain_query
           (plain_params\<lparr>io_limit := 0, USE_DEFERRED_FETCH := True, beam_width := 1\<rparr>) None = Some (Inr s) \<and>
        length (full_retset s) < k_search (plain_params\<lparr>io_limit := 0, USE_DEFERRED_FETCH := True, beam_width := 1\<rparr>)) \<and>
   cached_beam_search 0 star_index plain_query
     (plain_params\<lparr>io_limit := 0, USE_DEFERRED_FETCH := True, beam_width := 1\<rparr>)
     \<lparr>indices = [5, 5, 5], distances = None, out_stats = None\<rparr>
     = Some (Inr \<lparr>indices = [5, 5, 5], distances = None, out_stats = None\<rparr>)"
  by (simp add: search_eval star_index_simps plain_query_simps plain_params_simps)

section \<open>Output distances\<close>

lemma fold_squares:
  "fold (\<lambda>x acc. acc + x * x) xs a = a + sum_list (map (\<lambda>x. x\<^sup>2) xs)" for a :: real
  by (induction xs arbitrary: a) (simp_all add: power2_eq_square)


lemma copied_dists_nth:
  "i < k \<Longrightarrow> k \<le> length fr \<Longrightarrow>
   copied_dists ix qn fr k ds ! i = out_distance ix qn (distance (fr ! i))"
  by (simp add: copied_dists_def nth_append)



text \<open>
  Claim C6, as the code has it: for inner product every output distance is the negated
  distance stored in \<open>full_retset\<close>, multiplied by \<open>max_base_norm * ||q||\<close> when
  \<open>max_base_norm\<close> is not zero, and left negated when it is zero; \<open>||q||\<close> is the norm
  of the first \<open>data_dim - 1\<close> coordinates of the query.
\<close>

theorem inner_product_output_distance:
  assumes "cached_beam_search fuel ix q p bufs = Some (Inr out)"
    and "final_full_retset fuel ix q p (out_stats bufs) = Some fr"
    and "distances bufs = Some ds0"
    and "metric ix = INNER_PRODUCT"
    and "i < k_search p"
  shows "\<exists>ds. distances out = Some ds \<and> i < length ds \<and> i < length fr \<and>
           ds ! i = (if max_base_norm ix \<noteq> 0
                     then - distance (fr ! i) * (max_base_norm ix * query_norm_of ix (query1 q))
                     else - distance (fr ! i)) \<and>
           query_norm_of ix (query1 q)
             = sqrt (sum_list (map (\<lambda>x. x\<^sup>2) (take (data_dim ix - 1) (query1 q))))"
proof -
  from cached_beam_search_final [OF assms(1,2)] assms(3)
  have fits: "k_search p \<le> length fr" "k_search p \<le> length ds0"
    and d: "distances out = Some (copied_dists ix (query_norm_of ix (query1 q)) fr (k_search p) ds0)"
    by (simp_all add: copy_fits_def)
  have len: "length (copied_dists ix (query_norm_of ix (query1 q)) fr (k_search p) ds0) = length ds0"
    using fits by (simp add: copied_dists_def)
  have n: "query_norm_of ix (query1 q)
             = sqrt (sum_list (map (\<lambda>x. x\<^sup>2) (take (data_dim ix - 1) (query1 q))))"
    using assms(4) by (simp add: query_norm_of_def fold_squares)
  from d len fits assms(4,5) copied_dists_nth [OF assms(5) fits(1)] n show ?thesis
    by (simp add: out_distance_def)
qed

lemma ip_index_simps:
  "max_node_len (ip_index b) = 4096" "MAX_N_SECTOR_READS (ip_index b) = 128"
  "metric (ip_index b) = INNER_PRODUCT" "max_base_norm (ip_index b) = b"
  "data_dim (ip_index b) = 3" "medoids (ip_index b) = [0]"
  "nhood_cache (ip_index b) i = None" "disk_nhood (ip_index b) i = (if i = 0 then [1, 2] else [])"
  "dummy_pts (ip_index b) = {}" "use_partition (ip_index b) = False"
  "use_disk_index_pq (ip_index b) = False" "reorder_data_exists (ip_index b) = False"
  by (simp_all add: ip_index_def star_index_def)


lemma ip_final:
  "final_full_retset (Suc (Suc 0)) (ip_index b) plain_query plain_params st
     = Some [mk_Neighbor 0 0, mk_Neighbor 1 1, mk_Neighbor 2 2]"
  by (simp add: final_full_retset_def search_eval ip_index_simps plain_query_simps plain_params_simps)

lemma ip_norm: "query_norm_of (ip_index b) (query1 plain_query) = 5"
  by (simp add: query_norm_of_def ip_index_simps plain_query_simps)

lemma ip_search:
  "cached_beam_search (Suc (Suc 0)) (ip_index b) plain_query plain_params fresh_bufs
     = Some (Inr \<lparr>indices = [0, 1, 2],
                  distances = Some (if b \<noteq> 0 then [0, - (b * 5), - (2 * (b * 5))] else [0, - 1, - 2]),
                  out_stats = Some \<lparr>n_ios = 3, n_4k = 3, n_hops = 2, n_cache_hits = 0, n_cmps = 4\<rparr>\<rparr>)"
  by (simp add: search_eval ip_index_simps plain_query_simps plain_params_simps fresh_bufs_simps)

theorem inner_product_output_distance_witness:
  "metric (ip_index 2) = INNER_PRODUCT \<and> distances fresh_bufs = Some [7, 7, 7] \<and>
   (1::nat) < k_search plain_params \<and>
   final_full_retset (Suc (Suc 0)) (ip_index 2) plain_query plain_params (out_stats fresh_bufs)
     = Some [mk_Neighbor 0 0, mk_Neighbor 1 1, mk_Neighbor 2 2] \<and>
   (\<exists>out ds. cached_beam_search (Suc (Suc 0)) (ip_index 2) plain_query plain_params fresh_bufs
               = Some (Inr out) \<and> distances out = Some ds \<and>
             ds ! 1 = - distance (mk_Neighbor 1 1) * (2 * 5) \<and> ds ! 1 = - 10)"
proof -
  let ?out = "\<lparr>indices = [0, 1, 2], distances = Some [0, - (2 * 5), - (2 * (2 * 5))],
               out_stats = Some \<lparr>n_ios = 3, n_4k = 3, n_hops = 2, n_cache_hits = 0, n_cmps = 4\<rparr>\<rparr>"
  have s: "cached_beam_search (Suc (Suc 0)) (ip_index 2) plain_query plain_params fresh_bufs
             = Some (Inr ?out)"
    using ip_search [of 2] by simp
  have m: "metric (ip_index 2) = INNER_PRODUCT" by (simp add: ip_index_simps)
  have k: "(1::nat) < k_search plain_params" by (simp add: plain_params_simps)
  from inner_product_output_distance [OF s ip_final fresh_bufs_simps(2) m k]
  show ?thesis
    using s m k ip_final [of 2 "out_stats fresh_bufs"]
    by (simp add: ip_index_simps ip_norm fresh_bufs_simps mk_Neighbor_def)
qed

text \<open>
  With \<open>max_base_norm = 0\<close> (no norm file was loaded) the output is the negated distance,
  not the negated distance times \<open>max_base_norm * ||q||\<close>, which would be zero.
\<close>

theorem inner_product_zero_norm_counterexample:
  "metric (ip_index 0) = INNER_PRODUCT \<and>
   final_full_retset (Suc (Suc 0)) (ip_index 0) plain_query plain_params (out_stats fresh_bufs)
     = Some [mk_Neighbor 0 0, mk_Neighbor 1 1, mk_Neighbor 2 2] \<and>
   cached_beam_search (Suc (Suc 0)) (ip_index 0) plain_query plain_params fresh_bufs
     = Some (Inr \<lparr>indices = [0, 1, 2], distances = Some [0, - 1, - 2],
                  out_stats = Some \<lparr>n_ios = 3, n_4k = 3, n_hops = 2, n_cache_hits = 0, n_cmps = 4\<rparr>\<rparr>) \<and>
   [0, - 1, - 2] ! 1 \<noteq> - distance (mk_Neighbor 1 1)
      * (max_base_norm (ip_index 0) * query_norm_of (ip_index 0) (query1 plain_query))"
  using ip_search [of 0] ip_final [of 0 "out_stats fresh_bufs"]
  by (simp add: ip_index_simps mk_Neighbor_def)

section \<open>Order of the output distances\<close>








section \<open>Failure of the remote fetch\<close>




section \<open>The traversal keeps its invariant\<close>


















section \<open>No id twice\<close>

lemma best_centroid_in:
  "fst (best_centroid q ms c best) \<in> insert (fst best) (set ms)"
  by (induction q ms c best rule: best_centroid.induct) auto















section \<open>The budget of sector reads\<close>























section \<open>range\_search\<close>














end
